theory Spec2Isabelle
  imports Main "HOL-Library.AList"
begin

section \<open>Schema inference of tap-s3-csv (conversion.py)\<close>

text \<open>
  The module infers, for every column of a pandas DataFrame built from sample rows, one
  type tag, a date format label and a maximum length, and emits a JSON-schema fragment per
  column. The Python code is embedded function by function, under its own names. The two
  dictionaries that \<open>infer_column\<close> mutates are passed in and returned, every
  \<open>raise\<close> is a value \<open>Inl e\<close>, and the two pandas parsers the code
  calls are parameters of the model (record \<open>pandas\<close>).
\<close>

subsection \<open>Values\<close>

datatype error = AttributeError | KeyError | ValueError

text \<open>
  A cell of a DataFrame column. \<open>PyNone\<close> and \<open>NaN\<close> are the two missing
  values (\<open>isnull\<close> holds of both and of nothing else). The code reads a number
  and a list only through \<open>str(x)\<close>, \<open>isinstance(x, list)\<close> and the
  attribute lookup \<open>x.replace\<close>, so \<open>Num r\<close> is an int or float
  other than NaN whose \<open>str\<close> is \<open>r\<close>, and \<open>List r\<close> is a
  list whose \<open>str\<close> is \<open>r\<close>.
\<close>

datatype cell = PyNone | NaN | Str string | Bool bool | Num string | List string

text \<open>
  A pandas Series: its name, the name of its dtype and its cells. A column of the
  DataFrame is a \<open>cell series\<close>; a column that holds only \<open>str\<close> objects
  is a \<open>string series\<close>.
\<close>

record 'a series =
  name :: string
  dtype_name :: string
  cells :: "'a list"

text \<open>JSON values, for the schema fragments. A dict keeps its keys in insertion order.\<close>

datatype json = JNone | JStr string | JInt int | JList "json list" | JDict "(string \<times> json) list"

type_synonym date_format_map = "string \<rightharpoonup> string"
type_synonym lengths_map = "string \<rightharpoonup> int"

text \<open>
  pandas is not part of the repository. \<open>to_numeric P column\<close> is
  \<open>pd.to_numeric(column)\<close> on a Series of str: the numeric Series, or the exception.
  \<open>to_datetime P column fmt\<close> is \<open>pd.to_datetime(column, format=fmt)\<close> on a
  Series of str: \<open>Inr ()\<close> when every value parses (the parsed Series is only read
  for its name, which pandas keeps), or the exception.
\<close>

record pandas =
  to_numeric :: "string series \<Rightarrow> error + cell series"
  to_datetime :: "string series \<Rightarrow> string \<Rightarrow> error + unit"

subsection \<open>Python and pandas primitives\<close>

fun isnull :: "cell \<Rightarrow> bool" where
  "isnull PyNone = True"
| "isnull NaN = True"
| "isnull _ = False"

fun is_list :: "cell \<Rightarrow> bool" where
  "is_list (List r) = True"
| "is_list _ = False"

text \<open>\<open>str(x)\<close>.\<close>

fun py_str :: "cell \<Rightarrow> string" where
  "py_str PyNone = ''None''"
| "py_str NaN = ''nan''"
| "py_str (Str s) = s"
| "py_str (Bool b) = (if b then ''True'' else ''False'')"
| "py_str (Num r) = r"
| "py_str (List r) = r"

text \<open>
  \<open>Series.max()\<close> of a Series of ints. Of an empty Series it is NaN; that case is
  never reached from \<open>infer_column\<close>, where an empty column counts as all null, and
  is given the value 0 here.
\<close>

fun series_max :: "int list \<Rightarrow> int" where
  "series_max [] = 0"
| "series_max (x # xs) = fold max xs x"

text \<open>\<open>column.apply(lambda x: len(str(x))).max()\<close>.\<close>

definition max_str_len :: "cell series \<Rightarrow> int" where
  "max_str_len column = series_max (map (\<lambda>x. int (length (py_str x))) (cells column))"

text \<open>\<open>Series.dropna()\<close>.\<close>

definition dropna :: "cell series \<Rightarrow> cell series" where
  "dropna s = s\<lparr>cells := filter (\<lambda>v. \<not> isnull v) (cells s)\<rparr>"

text \<open>
  \<open>str.lower()\<close>, on the letters A to Z. Python also lowers letters outside ASCII;
  none of them lowers to an ASCII letter of \<open>true\<close>, \<open>false\<close> or
  \<open>null\<close>, so the comparisons below are not affected.
\<close>

definition lower_char :: "char \<Rightarrow> char" where
  "lower_char c =
     (case map_of (zip ''ABCDEFGHIJKLMNOPQRSTUVWXYZ'' ''abcdefghijklmnopqrstuvwxyz'') c of
        Some l \<Rightarrow> l
      | None \<Rightarrow> c)"

definition lower :: "string \<Rightarrow> string" where
  "lower s = map lower_char s"

text \<open>
  \<open>x.replace(',', '')\<close> for each cell of the column, in order. Only a str has the
  attribute \<open>replace\<close>: the first other cell raises AttributeError.
\<close>

fun strip_commas :: "cell list \<Rightarrow> error + string list" where
  "strip_commas [] = Inr []"
| "strip_commas (Str s # vs) =
     (case strip_commas vs of
        Inl e \<Rightarrow> Inl e
      | Inr ss \<Rightarrow> Inr (filter (\<lambda>c. c \<noteq> CHR '','') s # ss))"
| "strip_commas (_ # vs) = Inl AttributeError"

text \<open>
  The str cells of a column. After \<open>infer_number\<close> has returned, every cell of the
  column is a str, and these are all its cells.
\<close>

fun strs :: "cell list \<Rightarrow> string list" where
  "strs [] = []"
| "strs (Str s # vs) = s # strs vs"
| "strs (_ # vs) = strs vs"

definition as_text :: "cell series \<Rightarrow> string series" where
  "as_text column = \<lparr>name = name column, dtype_name = dtype_name column, cells = strs (cells column)\<rparr>"

text \<open>
  \<open>re.sub('(?i)<null>', '', s)\<close>: every occurrence of the marker, in any case, is
  removed, scanning from the left.
\<close>

fun remove_null :: "string \<Rightarrow> string" where
  "remove_null [] = []"
| "remove_null (c # cs) =
     (if lower (take 6 (c # cs)) = ''<null>'' then remove_null (drop 5 cs)
      else c # remove_null cs)"

text \<open>Python's order on str: by code point, a proper prefix first.\<close>

fun str_lt :: "string \<Rightarrow> string \<Rightarrow> bool" where
  "str_lt [] [] = False"
| "str_lt [] (y # ys) = True"
| "str_lt (x # xs) [] = False"
| "str_lt (x # xs) (y # ys) =
     ((of_char x :: nat) < of_char y \<or> (x = y \<and> str_lt xs ys))"

text \<open>\<open>Series.min()\<close> of a non-empty Series of str, the first cell being \<open>m\<close>.\<close>

fun series_min :: "string \<Rightarrow> string list \<Rightarrow> string" where
  "series_min m [] = m"
| "series_min m (x # xs) = series_min (if str_lt x m then x else m) xs"

subsection \<open>The checks\<close>

text \<open>
  \<open>infer_number\<close>. The comma stripping stands before the \<open>try\<close>, so its
  AttributeError leaves the function; an exception of \<open>pd.to_numeric\<close> is caught.
\<close>

definition infer_number :: "pandas \<Rightarrow> cell series \<Rightarrow> error + bool" where
  "infer_number P column =
     (case strip_commas (cells column) of
        Inl e \<Rightarrow> Inl e
      | Inr ss \<Rightarrow>
          (case to_numeric P \<lparr>name = name column, dtype_name = dtype_name column, cells = ss\<rparr> of
             Inl e \<Rightarrow> Inr False
           | Inr tmpResult \<Rightarrow>
               if cells (dropna tmpResult) = [] then Inr False
               else if dtype_name tmpResult \<in> set [''float64'', ''int64''] then Inr True
               else Inr False))"

text \<open>
  \<open>infer_datetime_and_format\<close>, on a Series of str. Each \<open>try\<close> block is one
  branch; only the first returns True. With no cell left, \<open>column.min()\<close> is NaN and
  \<open>'/' in cell\<close> raises inside the first block, after \<open>column\<close> has been
  rebound to the parsed Series: the model then asks the parser about the empty Series
  again. \<open>infer_datetime\<close> never passes an empty Series.
\<close>

definition parses :: "pandas \<Rightarrow> string series \<Rightarrow> string \<Rightarrow> bool" where
  "parses P column fmt = (case to_datetime P column fmt of Inl e \<Rightarrow> False | Inr u \<Rightarrow> True)"

definition infer_datetime_and_format ::
    "pandas \<Rightarrow> string series \<Rightarrow> date_format_map \<Rightarrow> bool \<times> date_format_map" where
  "infer_datetime_and_format P column0 dateFormatMap =
     (let column = column0\<lparr>cells := filter (\<lambda>s. s \<noteq> []) (cells column0)\<rparr> in
      if cells column \<noteq> [] \<and> parses P column ''%Y-%m-%d'' then
        (let cell = series_min (hd (cells column)) (tl (cells column)) in
         (True, dateFormatMap(name column \<mapsto>
                  (if CHR ''/'' \<in> set cell then ''YYYY/MM/DD'' else ''YYYY-MM-DD''))))
      else if parses P column ''%m-%d-%Y'' then
        (False, dateFormatMap(name column \<mapsto> ''MM-DD-YYYY''))
      else if parses P column ''%d-%m-%Y'' then
        (False, dateFormatMap(name column \<mapsto> ''DD-MM-YYYY''))
      else if parses P column ''%m/%d/%Y'' then
        (False, dateFormatMap(name column \<mapsto> ''MM/DD/YYYY''))
      else if parses P column ''%d/%m/%Y'' then
        (False, dateFormatMap(name column \<mapsto> ''DD/MM/YYYY''))
      else (False, dateFormatMap))"

text \<open>
  \<open>infer_datetime\<close>, on a Series of str: the \<open><NULL>\<close> markers are removed,
  the empty strings become NaN and are dropped.
\<close>

definition infer_datetime ::
    "pandas \<Rightarrow> string series \<Rightarrow> date_format_map \<Rightarrow> bool \<times> date_format_map" where
  "infer_datetime P column dateFormatMap =
     (let tmpCol = column\<lparr>cells := map remove_null (cells column)\<rparr>;
          tmpCol = tmpCol\<lparr>cells := filter (\<lambda>s. s \<noteq> []) (cells tmpCol)\<rparr>
      in if cells tmpCol = [] then (False, dateFormatMap)
         else infer_datetime_and_format P tmpCol dateFormatMap)"

text \<open>\<open>is_boolean_value\<close>: the two isinstance tests and the identity tests.\<close>

fun is_boolean_value :: "cell \<Rightarrow> bool" where
  "is_boolean_value (Str s) = (lower s = ''true'' \<or> lower s = ''false'')"
| "is_boolean_value (Bool b) = True"
| "is_boolean_value _ = False"

text \<open>\<open>Series.unique()\<close>: the distinct cells, in order of first appearance.\<close>

definition unique :: "cell list \<Rightarrow> cell list" where
  "unique vs = rev (remdups (rev vs))"

text \<open>The loop of \<open>infer_boolean\<close> over the distinct values.\<close>

fun all_boolean :: "cell list \<Rightarrow> bool" where
  "all_boolean [] = True"
| "all_boolean (v # vs) =
     (if \<not> is_boolean_value v \<and> \<not> isnull v then False else all_boolean vs)"

text \<open>\<open>infer_boolean\<close>, on a Series of str: empty strings become NaN first.\<close>

definition infer_boolean :: "string series \<Rightarrow> bool" where
  "infer_boolean column =
     (let unique_values = unique (map (\<lambda>s. if s = [] then NaN else Str s) (cells column)) in
      if length unique_values = 0 then False
      else if length unique_values = 1 \<and> isnull (hd unique_values) then False
      else all_boolean unique_values)"

subsection \<open>infer\_column\<close>

text \<open>
  The result is the type tag (\<open>None\<close> when the function falls off its end) with the
  two dictionaries as the call leaves them. \<open>infer_datetime\<close> and
  \<open>infer_boolean\<close> are reached only when \<open>infer_number\<close> has returned, hence
  with a column of str cells.
\<close>

definition infer_column ::
    "pandas \<Rightarrow> cell series \<Rightarrow> date_format_map \<Rightarrow> lengths_map \<Rightarrow>
       error + (string option \<times> date_format_map \<times> lengths_map)" where
  "infer_column P column dateFormatMap lengths =
     (if list_all isnull (cells column) then
        Inr (Some ''string'', dateFormatMap, lengths(name column \<mapsto> 0))
      else
        (let lengths' = lengths(name column \<mapsto> max_str_len column) in
         if dtype_name column = ''object'' then
           (if list_ex is_list (cells column) then Inr (Some ''list'', dateFormatMap, lengths')
            else
              (case infer_number P column of
                 Inl e \<Rightarrow> Inl e
               | Inr True \<Rightarrow> Inr (Some ''number'', dateFormatMap, lengths')
               | Inr False \<Rightarrow>
                   (case infer_datetime P (as_text column) dateFormatMap of
                      (True, dfm) \<Rightarrow> Inr (Some ''date-time'', dfm, lengths')
                    | (False, dfm) \<Rightarrow>
                        if infer_boolean (as_text column) then Inr (Some ''boolean'', dfm, lengths')
                        else Inr (Some ''string'', dfm, lengths'))))
         else if dtype_name column \<in> set [''int32'', ''int64'', ''float32''] then
           Inr (Some ''number'', dateFormatMap, lengths')
         else Inr (None, dateFormatMap, lengths')))"

subsection \<open>The schema\<close>

text \<open>\<open>datatype_schema\<close>. The tag may be \<open>None\<close>, which Python puts into the list as it is.\<close>

definition max_length :: "int \<Rightarrow> bool \<Rightarrow> (string \<times> json) list" where
  "max_length len string_max_length =
     (if string_max_length then [(''maxLength'', JInt len)] else [])"

definition datatype_schema :: "string option \<Rightarrow> int \<Rightarrow> bool \<Rightarrow> json" where
  "datatype_schema datatype len string_max_length =
     (if datatype = Some ''date-time'' then
        JDict ([(''type'', JList [JStr ''null'', JStr ''string'']), (''format'', JStr ''date-time'')]
               @ max_length len string_max_length)
      else if datatype = Some ''dict'' then
        JDict [(''anyOf'',
                JList [JDict [(''type'', JStr ''object''), (''properties'', JDict [])],
                       JDict ((''type'', JList [JStr ''null'', JStr ''string''])
                              # max_length len string_max_length)])]
      else
        JDict ((''type'',
                JList ([JStr ''null'', (case datatype of None \<Rightarrow> JNone | Some d \<Rightarrow> JStr d)]
                       @ (if datatype \<noteq> Some ''string'' then [JStr ''string''] else [])))
               # max_length len string_max_length))"

text \<open>
  \<open>generate_schema\<close>, from the DataFrame \<open>df = pd.DataFrame(samples)\<close> on, given as
  the list of its columns. \<open>col_types\<close> is iterated by \<open>items()\<close> and is an
  association list in insertion order; the other dictionaries are only indexed.
  \<open>table_spec\<close> is not used by the code.
\<close>

fun infer_columns ::
    "pandas \<Rightarrow> cell series list \<Rightarrow>
       (string \<times> string option) list \<times> date_format_map \<times> lengths_map \<Rightarrow>
       error + ((string \<times> string option) list \<times> date_format_map \<times> lengths_map)" where
  "infer_columns P [] st = Inr st"
| "infer_columns P (column # df) (col_types, date_format_map, lengths) =
     (case infer_column P column date_format_map lengths of
        Inl e \<Rightarrow> Inl e
      | Inr (t, dfm, lens) \<Rightarrow>
          infer_columns P df (AList.update (name column) t col_types, dfm, lens))"

fun emit_schema ::
    "(string \<times> string option) list \<Rightarrow> lengths_map \<Rightarrow> bool \<Rightarrow> (string \<rightharpoonup> json) \<Rightarrow>
       error + (string \<rightharpoonup> json)" where
  "emit_schema [] lengths string_max_length schema = Inr schema"
| "emit_schema ((col_name, datatype) # items) lengths string_max_length schema =
     (if datatype \<noteq> Some ''list'' then
        (case lengths col_name of
           None \<Rightarrow> Inl KeyError
         | Some l \<Rightarrow>
             emit_schema items lengths string_max_length
               (schema(col_name \<mapsto> datatype_schema datatype l string_max_length)))
      else emit_schema items lengths string_max_length schema)"

definition generate_schema ::
    "pandas \<Rightarrow> cell series list \<Rightarrow> bool \<Rightarrow> error + ((string \<rightharpoonup> json) \<times> date_format_map)" where
  "generate_schema P df string_max_length =
     (case infer_columns P df ([], Map.empty, Map.empty) of
        Inl e \<Rightarrow> Inl e
      | Inr (col_types, date_format_map, lengths) \<Rightarrow>
          (case emit_schema col_types lengths string_max_length Map.empty of
             Inl e \<Rightarrow> Inl e
           | Inr schema \<Rightarrow> Inr (schema, date_format_map)))"

subsection \<open>A reference instance of the parsers\<close>

text \<open>
  One instance of \<open>pandas\<close>, on which the examples below are evaluated. Its
  \<open>to_numeric\<close> reads plain decimal literals (an optional sign, digits, an optional
  fraction) and turns the empty string into NaN; anything else raises. Its
  \<open>to_datetime\<close> reads a date field by field, as \<open>strptime\<close> does: a year of
  four digits, a month and a day of one or two digits that form a date of the calendar.
  Under \<open>%Y-%m-%d\<close> it also takes \<open>/\<close> as the separator, the behaviour
  that the comment in \<open>infer_datetime_and_format\<close> reports of pandas.
\<close>

definition is_digit :: "char \<Rightarrow> bool" where
  "is_digit c = (c \<in> set ''0123456789'')"

definition digit_val :: "char \<Rightarrow> nat" where
  "digit_val c =
     (case map_of (zip ''0123456789'' [0, 1, 2, 3, 4, 5, 6, 7, 8, 9]) c of
        Some n \<Rightarrow> n
      | None \<Rightarrow> 0)"

definition nat_of_digits :: "string \<Rightarrow> nat" where
  "nat_of_digits s = fold (\<lambda>c n. 10 * n + digit_val c) s 0"

definition digits :: "string \<Rightarrow> bool" where
  "digits s = (s \<noteq> [] \<and> list_all is_digit s)"

fun split_on :: "char \<Rightarrow> string \<Rightarrow> string list" where
  "split_on sep [] = [[]]"
| "split_on sep (c # cs) =
     (if c = sep then [] # split_on sep cs
      else (case split_on sep cs of
              [] \<Rightarrow> [[c]]
            | f # fs \<Rightarrow> (c # f) # fs))"

definition unsigned :: "string \<Rightarrow> string" where
  "unsigned s = (case s of [] \<Rightarrow> [] | c # cs \<Rightarrow> if c = CHR ''-'' \<or> c = CHR ''+'' then cs else s)"

definition numeric_literal :: "string \<Rightarrow> bool" where
  "numeric_literal s =
     (case split_on CHR ''.'' (unsigned s) of
        [i] \<Rightarrow> digits i
      | [i, f] \<Rightarrow> (i \<noteq> [] \<or> f \<noteq> []) \<and> list_all is_digit i \<and> list_all is_digit f
      | _ \<Rightarrow> False)"

definition numeric_cell :: "string \<Rightarrow> cell" where
  "numeric_cell s = (if s = [] then NaN else Num s)"

definition pd_to_numeric :: "string series \<Rightarrow> error + cell series" where
  "pd_to_numeric column =
     (if list_all (\<lambda>s. s = [] \<or> numeric_literal s) (cells column) then
        Inr \<lparr>name = name column,
             dtype_name = (if list_all (\<lambda>s. digits (unsigned s)) (cells column) then ''int64''
                           else ''float64''),
             cells = map numeric_cell (cells column)\<rparr>
      else Inl ValueError)"

definition days_in_month :: "nat \<Rightarrow> nat \<Rightarrow> nat" where
  "days_in_month y m =
     (if m \<in> set [4, 6, 9, 11] then 30
      else if m = 2 then
        (if y mod 4 = 0 \<and> (y mod 100 \<noteq> 0 \<or> y mod 400 = 0) then 29 else 28)
      else 31)"

definition valid_date :: "string \<Rightarrow> string \<Rightarrow> string \<Rightarrow> bool" where
  "valid_date y m d =
     (digits y \<and> length y = 4 \<and> digits m \<and> length m \<le> 2 \<and> digits d \<and> length d \<le> 2 \<and>
      1 \<le> nat_of_digits m \<and> nat_of_digits m \<le> 12 \<and> 1 \<le> nat_of_digits d \<and>
      nat_of_digits d \<le> days_in_month (nat_of_digits y) (nat_of_digits m))"

definition year_first :: "char \<Rightarrow> string \<Rightarrow> bool" where
  "year_first sep s = (case split_on sep s of [y, m, d] \<Rightarrow> valid_date y m d | _ \<Rightarrow> False)"

definition month_first :: "char \<Rightarrow> string \<Rightarrow> bool" where
  "month_first sep s = (case split_on sep s of [m, d, y] \<Rightarrow> valid_date y m d | _ \<Rightarrow> False)"

definition day_first :: "char \<Rightarrow> string \<Rightarrow> bool" where
  "day_first sep s = (case split_on sep s of [d, m, y] \<Rightarrow> valid_date y m d | _ \<Rightarrow> False)"

definition strptime :: "string \<Rightarrow> string \<Rightarrow> bool" where
  "strptime fmt s =
     (if fmt = ''%Y-%m-%d'' then year_first CHR ''-'' s \<or> year_first CHR ''/'' s
      else if fmt = ''%m-%d-%Y'' then month_first CHR ''-'' s
      else if fmt = ''%d-%m-%Y'' then day_first CHR ''-'' s
      else if fmt = ''%m/%d/%Y'' then month_first CHR ''/'' s
      else if fmt = ''%d/%m/%Y'' then day_first CHR ''/'' s
      else False)"

definition pd_to_datetime :: "string series \<Rightarrow> string \<Rightarrow> error + unit" where
  "pd_to_datetime column fmt =
     (if list_all (strptime fmt) (cells column) then Inr () else Inl ValueError)"

definition pd :: pandas where
  "pd = \<lparr>to_numeric = pd_to_numeric, to_datetime = pd_to_datetime\<rparr>"

text \<open>
  The formats of the second to the fifth \<open>try\<close> block of
  \<open>infer_datetime_and_format\<close>, each with the label that its block records, in the
  order of the code. The theorems about these blocks are stated over this list.
\<close>

definition fallback_formats :: "(string \<times> string) list" where
  "fallback_formats =
     [(''%m-%d-%Y'', ''MM-DD-YYYY''), (''%d-%m-%Y'', ''DD-MM-YYYY''),
      (''%m/%d/%Y'', ''MM/DD/YYYY''), (''%d/%m/%Y'', ''DD/MM/YYYY'')]"

section \<open>Auxiliary facts\<close>

subsection \<open>What one call of infer\_column changes\<close>

lemma name_as_text: "name (as_text c) = name c"
  by (simp add: as_text_def)

lemma infer_datetime_and_format_cases:
  assumes "infer_datetime_and_format P col dfm = (b, dfm')"
  shows "(b \<and> (\<exists>lab \<in> set [''YYYY/MM/DD'', ''YYYY-MM-DD'']. dfm' = dfm(name col \<mapsto> lab)))
       \<or> (\<not> b \<and> (dfm' = dfm \<or>
             (\<exists>lab \<in> set [''MM-DD-YYYY'', ''DD-MM-YYYY'', ''MM/DD/YYYY'', ''DD/MM/YYYY''].
                dfm' = dfm(name col \<mapsto> lab))))"
  using assms
  by (auto simp: infer_datetime_and_format_def Let_def split: if_splits)

lemma infer_datetime_cases:
  assumes "infer_datetime P col dfm = (b, dfm')"
  shows "(b \<and> (\<exists>lab \<in> set [''YYYY/MM/DD'', ''YYYY-MM-DD'']. dfm' = dfm(name col \<mapsto> lab)))
       \<or> (\<not> b \<and> (dfm' = dfm \<or>
             (\<exists>lab \<in> set [''MM-DD-YYYY'', ''DD-MM-YYYY'', ''MM/DD/YYYY'', ''DD/MM/YYYY''].
                dfm' = dfm(name col \<mapsto> lab))))"
proof (cases "filter (\<lambda>s. s \<noteq> []) (map remove_null (cells col)) = []")
  case True
  with assms show ?thesis by (simp add: infer_datetime_def)
next
  case False
  with assms have "infer_datetime_and_format P
      (col\<lparr>cells := filter (\<lambda>s. s \<noteq> []) (map remove_null (cells col))\<rparr>) dfm = (b, dfm')"
    by (simp add: infer_datetime_def)
  from infer_datetime_and_format_cases [OF this] show ?thesis by simp
qed

lemma infer_datetime_fst:
  "fst (infer_datetime P col dfm) = fst (infer_datetime P col dfm2)"
  by (simp add: infer_datetime_def infer_datetime_and_format_def Let_def)


lemma infer_column_cases:
  assumes "infer_column P c dfm lens = Inr (t, dfm', lens')"
  shows "(\<exists>l. lens' = lens(name c \<mapsto> l))
       \<and> ((t = Some ''date-time'' \<and>
             (\<exists>lab \<in> set [''YYYY/MM/DD'', ''YYYY-MM-DD'']. dfm' = dfm(name c \<mapsto> lab)))
          \<or> (t \<in> set [Some ''boolean'', Some ''string''] \<and>
              (dfm' = dfm \<or>
               (\<exists>lab \<in> set [''MM-DD-YYYY'', ''DD-MM-YYYY'', ''MM/DD/YYYY'', ''DD/MM/YYYY''].
                  dfm' = dfm(name c \<mapsto> lab))))
          \<or> (t \<in> set [Some ''number'', Some ''list'', None] \<and> dfm' = dfm))"
proof (cases "infer_datetime P (as_text c) dfm")
  case (Pair b d)
  from infer_datetime_cases [OF this] Pair assms show ?thesis
    by (auto simp: infer_column_def Let_def name_as_text
             split: if_splits sum.splits bool.splits)
qed

lemma infer_column_type_indep:
  "map_sum id fst (infer_column P c dfm lens) = map_sum id fst (infer_column P c dfm2 lens2)"
proof -
  obtain b d where 1: "infer_datetime P (as_text c) dfm = (b, d)" by (cases "infer_datetime P (as_text c) dfm")
  obtain b2 d2 where 2: "infer_datetime P (as_text c) dfm2 = (b2, d2)" by (cases "infer_datetime P (as_text c) dfm2")
  from 1 2 infer_datetime_fst [of P "as_text c" dfm dfm2] have "b = b2" by simp
  with 1 2 show ?thesis
    by (simp add: infer_column_def Let_def split: sum.splits bool.splits)
qed

lemma infer_column_frame:
  assumes "infer_column P c dfm lens = Inr (t, dfm', lens')" and "n \<noteq> name c"
  shows "dfm' n = dfm n \<and> lens' n = lens n"
  using infer_column_cases [OF assms(1)] assms(2) by auto

lemma infer_columns_post:
  assumes "infer_columns P df (ct, dfm, lens) = Inr (ct', dfm', lens')"
    and "distinct (map name df)"
  shows "(\<forall>n. n \<notin> name ` set df \<longrightarrow>
            map_of ct' n = map_of ct n \<and> dfm' n = dfm n \<and> lens' n = lens n)
       \<and> (\<forall>c \<in> set df. \<exists>d l t d1 l1.
            infer_column P c d l = Inr (t, d1, l1) \<and> d (name c) = dfm (name c) \<and>
            map_of ct' (name c) = Some t \<and> dfm' (name c) = d1 (name c) \<and>
            lens' (name c) = l1 (name c))
       \<and> (distinct (map fst ct) \<longrightarrow> distinct (map fst ct'))"
  using assms
proof (induction df arbitrary: ct dfm lens)
  case Nil
  then show ?case by simp
next
  case (Cons c cs)
  from Cons.prems(1) obtain t d1 l1 where
    step: "infer_column P c dfm lens = Inr (t, d1, l1)" and
    rest: "infer_columns P cs (AList.update (name c) t ct, d1, l1) = Inr (ct', dfm', lens')"
    by (auto split: sum.splits)
  from Cons.prems(2) have dist: "distinct (map name cs)" and fresh: "name c \<notin> name ` set cs"
    by auto
  note ih = Cons.IH [OF rest dist]
  from ih have ih1: "\<And>n. n \<notin> name ` set cs \<Longrightarrow>
      map_of ct' n = map_of (AList.update (name c) t ct) n \<and> dfm' n = d1 n \<and> lens' n = l1 n"
    by blast
  from ih have ih2: "\<And>c'. c' \<in> set cs \<Longrightarrow> \<exists>d l t' d1' l1'.
      infer_column P c' d l = Inr (t', d1', l1') \<and> d (name c') = d1 (name c') \<and>
      map_of ct' (name c') = Some t' \<and> dfm' (name c') = d1' (name c') \<and>
      lens' (name c') = l1' (name c')"
    by blast
  from ih have ih3: "distinct (map fst (AList.update (name c) t ct)) \<Longrightarrow> distinct (map fst ct')"
    by blast
  have a: "\<forall>n. n \<notin> name ` set (c # cs) \<longrightarrow>
            map_of ct' n = map_of ct n \<and> dfm' n = dfm n \<and> lens' n = lens n"
  proof (intro allI impI)
    fix n assume n: "n \<notin> name ` set (c # cs)"
    then have "n \<noteq> name c" "n \<notin> name ` set cs" by auto
    with ih1 [of n] infer_column_frame [OF step, of n]
    show "map_of ct' n = map_of ct n \<and> dfm' n = dfm n \<and> lens' n = lens n"
      by (simp add: update_conv')
  qed
  have b: "\<forall>c' \<in> set (c # cs). \<exists>d l t' d1' l1'.
            infer_column P c' d l = Inr (t', d1', l1') \<and> d (name c') = dfm (name c') \<and>
            map_of ct' (name c') = Some t' \<and> dfm' (name c') = d1' (name c') \<and>
            lens' (name c') = l1' (name c')"
  proof
    fix c' assume "c' \<in> set (c # cs)"
    then consider "c' = c" | "c' \<in> set cs" by auto
    then show "\<exists>d l t' d1' l1'.
            infer_column P c' d l = Inr (t', d1', l1') \<and> d (name c') = dfm (name c') \<and>
            map_of ct' (name c') = Some t' \<and> dfm' (name c') = d1' (name c') \<and>
            lens' (name c') = l1' (name c')"
    proof cases
      case 1
      with ih1 [OF fresh] step show ?thesis
        by (auto simp: update_conv')
    next
      case 2
      with fresh have ne: "name c' \<noteq> name c" by (metis imageI)
      from ih2 [OF 2] infer_column_frame [OF step ne] show ?thesis by auto
    qed
  qed
  have c: "distinct (map fst ct) \<longrightarrow> distinct (map fst ct')"
    using ih3 by (simp add: distinct_update)
  from a b c show ?case by blast
qed

lemma emit_schema_post:
  assumes "emit_schema items lens flag schema = Inr schema'"
    and "distinct (map fst items)"
  shows "(map_of items n = None \<longrightarrow> schema' n = schema n)
       \<and> (map_of items n = Some (Some ''list'') \<longrightarrow> schema' n = schema n)
       \<and> (\<forall>t. map_of items n = Some t \<and> t \<noteq> Some ''list'' \<longrightarrow>
             (\<exists>l. lens n = Some l \<and> schema' n = Some (datatype_schema t l flag)))"
  using assms
proof (induction items arbitrary: schema)
  case Nil
  then show ?case by simp
next
  case (Cons it items)
  obtain k t where it: "it = (k, t)" by (cases it)
  from Cons.prems(2) it have dist: "distinct (map fst items)" and fresh: "map_of items k = None"
    by (auto simp: map_of_eq_None_iff)
  show ?case
  proof (cases "t = Some ''list''")
    case True
    with Cons.prems(1) it have "emit_schema items lens flag schema = Inr schema'" by simp
    from Cons.IH [OF this dist] True it fresh show ?thesis by auto
  next
    case False
    with Cons.prems(1) it obtain l where l: "lens k = Some l"
      and rest: "emit_schema items lens flag (schema(k \<mapsto> datatype_schema t l flag)) = Inr schema'"
      by (auto split: option.splits)
    from Cons.IH [OF rest dist] False it fresh l show ?thesis by auto
  qed
qed


lemma infer_datetime_add:
  "infer_datetime P col dfm =
     (fst (infer_datetime P col Map.empty), dfm ++ snd (infer_datetime P col Map.empty))"
  by (simp add: infer_datetime_def infer_datetime_and_format_def Let_def)

lemma infer_column_add:
  "infer_column P c dfm lens =
     (case infer_column P c Map.empty Map.empty of
        Inl e \<Rightarrow> Inl e
      | Inr (t, r, lr) \<Rightarrow> Inr (t, dfm ++ r, lens ++ lr))"
proof -
  obtain b r where 1: "infer_datetime P (as_text c) Map.empty = (b, r)"
    by (cases "infer_datetime P (as_text c) Map.empty")
  with infer_datetime_add [of P "as_text c" dfm]
  have 2: "infer_datetime P (as_text c) dfm = (b, dfm ++ r)" by simp
  show ?thesis
    by (simp add: infer_column_def Let_def 1 2 split: sum.splits bool.splits)
qed

lemma generate_schema_column:
  assumes gen: "generate_schema P df flag = Inr (schema, date_format_map)"
    and dist: "distinct (map name df)"
    and mem: "c \<in> set df"
  shows "\<exists>t r lr. infer_column P c Map.empty Map.empty = Inr (t, r, lr)
           \<and> date_format_map (name c) = r (name c)
           \<and> (t = Some ''list'' \<longrightarrow> schema (name c) = None)
           \<and> (t \<noteq> Some ''list'' \<longrightarrow>
                (\<exists>len. lr (name c) = Some len
                   \<and> schema (name c) = Some (datatype_schema t len flag)))"
proof -
  from gen obtain ct lens where
    loop: "infer_columns P df ([], Map.empty, Map.empty) = Inr (ct, date_format_map, lens)" and
    emit: "emit_schema ct lens flag Map.empty = Inr schema"
    by (auto simp: generate_schema_def split: sum.splits)
  from infer_columns_post [OF loop dist] mem obtain d l t d1 l1 where
    col: "infer_column P c d l = Inr (t, d1, l1)" and d: "d (name c) = None" and
    ct: "map_of ct (name c) = Some t" and dfm: "date_format_map (name c) = d1 (name c)" and
    lens: "lens (name c) = l1 (name c)"
    by fastforce
  from infer_columns_post [OF loop dist] have dct: "distinct (map fst ct)" by simp
  from col obtain r lr where
    base: "infer_column P c Map.empty Map.empty = Inr (t, r, lr)" and
    d1: "d1 = d ++ r" and l1: "l1 = l ++ lr"
    by (subst (asm) infer_column_add) (auto split: sum.splits)
  from infer_column_cases [OF base] obtain len where lr: "lr (name c) = Some len" by auto
  from d d1 dfm have e1: "date_format_map (name c) = r (name c)"
    by (simp add: map_add_def split: option.splits)
  from lens l1 lr have e2: "lens (name c) = Some len" by (simp add: map_add_def)
  from emit_schema_post [OF emit dct, of "name c"] ct e2
  have e3: "t = Some ''list'' \<longrightarrow> schema (name c) = None"
    and e4: "t \<noteq> Some ''list'' \<longrightarrow> schema (name c) = Some (datatype_schema t len flag)"
    by auto
  from base e1 e3 e4 lr show ?thesis by blast
qed


subsection \<open>Evaluation\<close>

lemmas pd_eval =
  pd_def pd_to_numeric_def pd_to_datetime_def numeric_literal_def numeric_cell_def unsigned_def
  digits_def is_digit_def digit_val_def nat_of_digits_def days_in_month_def valid_date_def
  year_first_def month_first_def day_first_def strptime_def

lemmas column_eval =
  infer_column_def infer_number_def infer_datetime_def infer_datetime_and_format_def
  infer_boolean_def parses_def as_text_def dropna_def unique_def lower_def lower_char_def
  max_str_len_def

lemmas schema_eval = generate_schema_def datatype_schema_def max_length_def

lemma is_list_not_null: "is_list v \<Longrightarrow> \<not> isnull v"
  by (cases v) simp_all

lemma list_cell_not_null: "list_ex is_list vs \<Longrightarrow> \<not> list_all isnull vs"
  by (induction vs) (auto dest: is_list_not_null)

subsection \<open>Columns of str\<close>

lemma strs_Str: "strs (map Str ss) = ss"
  by (induction ss) simp_all

lemma text_not_null: "ss \<noteq> [] \<Longrightarrow> \<not> list_all isnull (map Str ss)"
  by (cases ss) simp_all

lemma text_no_list: "\<not> list_ex is_list (map Str ss)"
  by (induction ss) simp_all

lemma as_text_Str:
  "cells c = map Str ss \<Longrightarrow> as_text c = \<lparr>name = name c, dtype_name = dtype_name c, cells = ss\<rparr>"
  by (simp add: as_text_def strs_Str)

lemma all_boolean_iff: "all_boolean vs = (\<forall>v \<in> set vs. is_boolean_value v \<or> isnull v)"
  by (induction vs) auto

lemma set_unique: "set (unique vs) = set vs"
  by (simp add: unique_def)

lemma distinct_unique: "distinct (unique vs)"
  by (simp add: unique_def)

lemma infer_boolean_iff:
  "infer_boolean column
     = ((\<exists>s \<in> set (cells column). s \<noteq> [])
        \<and> (\<forall>s \<in> set (cells column). s \<noteq> [] \<longrightarrow> is_boolean_value (Str s)))"
proof -
  define vs where "vs = map (\<lambda>s. if s = [] then NaN else Str s) (cells column)"
  define u where "u = unique vs"
  have su: "set u = set vs" and du: "distinct u" by (simp_all add: u_def set_unique distinct_unique)
  have svs: "set vs = (\<lambda>s. if s = [] then NaN else Str s) ` set (cells column)"
    by (simp add: vs_def)
  have ib: "infer_boolean column
      = (if length u = 0 then False else if length u = 1 \<and> isnull (hd u) then False
         else all_boolean u)"
    by (simp add: infer_boolean_def u_def vs_def)
  have allb: "all_boolean u = (\<forall>s \<in> set (cells column). s \<noteq> [] \<longrightarrow> is_boolean_value (Str s))"
  proof -
    have "all_boolean u
        = (\<forall>s \<in> set (cells column).
             is_boolean_value (if s = [] then NaN else Str s) \<or> isnull (if s = [] then NaN else Str s))"
      unfolding all_boolean_iff su svs by blast
    also have "\<dots> = (\<forall>s \<in> set (cells column). s \<noteq> [] \<longrightarrow> is_boolean_value (Str s))"
      by (intro ball_cong refl) simp
    finally show ?thesis .
  qed
  show ?thesis
  proof (cases "\<exists>s \<in> set (cells column). s \<noteq> []")
    case True
    then obtain s where s: "s \<in> set (cells column)" "s \<noteq> []" by blast
    then have mem: "Str s \<in> set u" by (force simp: su svs)
    then have ne: "length u \<noteq> 0" by auto
    have "\<not> (length u = 1 \<and> isnull (hd u))"
    proof
      assume a: "length u = 1 \<and> isnull (hd u)"
      then obtain x where "u = [x]" by (cases u) auto
      with mem a show False by auto
    qed
    with ne have e: "infer_boolean column = all_boolean u" by (auto simp: ib)
    show ?thesis unfolding e allb using True by blast
  next
    case False
    then have blank: "\<forall>s \<in> set (cells column). s = []" by blast
    show ?thesis
    proof (cases "cells column = []")
      case True
      then have "u = []" by (simp add: u_def vs_def unique_def)
      then have e: "infer_boolean column = False" by (simp add: ib)
      show ?thesis unfolding e using False by blast
    next
      case ne: False
      then obtain s0 where s0: "s0 \<in> set (cells column)" by (cases "cells column") auto
      with blank have "s0 = []" by blast
      with s0 have "NaN \<in> set vs" unfolding svs by force
      moreover from blank have "set vs \<subseteq> {NaN}" unfolding svs by auto
      ultimately have "set vs = {NaN}" by blast
      with su have sn: "set u = {NaN}" by simp
      from du have "length u = card (set u)" by (simp add: distinct_card)
      with sn have "length u = 1" by simp
      then obtain x where "u = [x]" by (cases u) auto
      with sn have "u = [NaN]" by simp
      then have e: "infer_boolean column = False" by (simp add: ib)
      show ?thesis unfolding e using False by blast
    qed
  qed
qed

subsection \<open>The order on str and the minimum\<close>

lemma str_lt_irrefl: "\<not> str_lt a a"
  by (induction a) simp_all

lemma str_lt_Nil2: "\<not> str_lt a []"
  by (cases a) simp_all

lemma str_lt_trans: "str_lt a b \<Longrightarrow> str_lt b c \<Longrightarrow> str_lt a c"
proof (induction a arbitrary: b c)
  case Nil
  then show ?case by (cases c) (simp_all add: str_lt_Nil2)
next
  case (Cons x xs)
  from Cons.prems(1) obtain y ys where b: "b = y # ys" by (cases b) simp_all
  from Cons.prems(2) b obtain z zs where c: "c = z # zs" by (cases c) simp_all
  from Cons.prems b c
  have 1: "(of_char x :: nat) < of_char y \<or> (x = y \<and> str_lt xs ys)"
    and 2: "(of_char y :: nat) < of_char z \<or> (y = z \<and> str_lt ys zs)"
    by simp_all
  have "(of_char x :: nat) < of_char z \<or> (x = z \<and> str_lt xs zs)"
  proof (cases "x = y")
    case xy: True
    show ?thesis
    proof (cases "y = z")
      case yz: True
      with xy 1 2 have "str_lt xs ys" "str_lt ys zs" by simp_all
      from Cons.IH [OF this] xy yz show ?thesis by simp
    next
      case False
      with 2 have "(of_char y :: nat) < of_char z" by simp
      with xy show ?thesis by simp
    qed
  next
    case False
    with 1 have xy: "(of_char x :: nat) < of_char y" by simp
    show ?thesis
    proof (cases "y = z")
      case True
      with xy show ?thesis by simp
    next
      case False
      with 2 have "(of_char y :: nat) < of_char z" by simp
      with xy have "(of_char x :: nat) < of_char z" by (rule less_trans)
      then show ?thesis by simp
    qed
  qed
  with c show ?case by simp
qed

lemma str_lt_total: "\<not> str_lt a b \<Longrightarrow> a \<noteq> b \<Longrightarrow> str_lt b a"
proof (induction a arbitrary: b)
  case Nil
  then show ?case by (cases b) simp_all
next
  case (Cons x xs)
  show ?case
  proof (cases b)
    case Nil
    then show ?thesis by simp
  next
    case (Cons y ys)
    with Cons.prems have n1: "\<not> (of_char x :: nat) < of_char y"
      and n2: "x \<noteq> y \<or> \<not> str_lt xs ys" and ne: "x \<noteq> y \<or> xs \<noteq> ys"
      by simp_all
    show ?thesis
    proof (cases "x = y")
      case True
      with n2 ne have "\<not> str_lt xs ys" "xs \<noteq> ys" by simp_all
      from Cons.IH [OF this] True Cons show ?thesis by simp
    next
      case False
      then have "(of_char x :: nat) \<noteq> of_char y" by simp
      with n1 have "(of_char y :: nat) < of_char x" by linarith
      with Cons show ?thesis by simp
    qed
  qed
qed

lemma series_min_least:
  "(\<forall>x \<in> set (m # xs). \<not> str_lt x (series_min m xs)) \<and> series_min m xs \<in> set (m # xs)"
proof (induction xs arbitrary: m)
  case Nil
  show ?case by (simp add: str_lt_irrefl)
next
  case (Cons x xs)
  define m' where "m' = (if str_lt x m then x else m)"
  define r where "r = series_min m' xs"
  have r: "series_min m (x # xs) = r" by (simp add: r_def m'_def)
  from Cons [of m'] have ih: "\<not> str_lt m' r" "\<forall>y \<in> set xs. \<not> str_lt y r"
    and mem: "r = m' \<or> r \<in> set xs"
    by (auto simp: r_def)
  have m'_cases: "(str_lt x m \<and> m' = x) \<or> (\<not> str_lt x m \<and> m' = m)"
    by (simp add: m'_def)
  have a: "\<not> str_lt m r"
  proof
    assume mr: "str_lt m r"
    from m'_cases show False
    proof
      assume "str_lt x m \<and> m' = x"
      then have "str_lt x m" "m' = x" by simp_all
      from str_lt_trans [OF this(1) mr] ih(1) this(2) show False by simp
    next
      assume "\<not> str_lt x m \<and> m' = m"
      with mr ih(1) show False by simp
    qed
  qed
  have b: "\<not> str_lt x r"
  proof
    assume xr: "str_lt x r"
    from m'_cases show False
    proof
      assume "str_lt x m \<and> m' = x"
      with xr ih(1) show False by simp
    next
      assume c: "\<not> str_lt x m \<and> m' = m"
      have "r = m \<or> str_lt r m"
        using a str_lt_total [of m r] by (cases "m = r") simp_all
      then show False
      proof
        assume "r = m"
        with xr c show False by simp
      next
        assume "str_lt r m"
        from str_lt_trans [OF xr this] c show False by simp
      qed
    qed
  qed
  have c: "r \<in> set (m # x # xs)"
    using mem m'_cases by auto
  from a b ih(2) c show ?case unfolding r by simp
qed

lemma infer_number_text_cells:
  assumes "infer_number P c = Inr b"
  shows "cells c = map Str (strs (cells c))"
proof -
  have "\<And>ss. strip_commas vs = Inr ss \<Longrightarrow> vs = map Str (strs vs)" for vs
    by (induction vs rule: strip_commas.induct) (auto split: sum.splits)
  with assms show ?thesis
    by (auto simp: infer_number_def split: sum.splits)
qed

lemma infer_column_text:
  assumes "dtype_name c = ''object''" and "cells c = map Str ss" and "ss \<noteq> []"
    and "infer_number P c = Inr False"
  shows "infer_column P c dfm lens =
     (case infer_datetime P (as_text c) dfm of
        (True, d) \<Rightarrow> Inr (Some ''date-time'', d, lens(name c \<mapsto> max_str_len c))
      | (False, d) \<Rightarrow>
          Inr (Some (if infer_boolean (as_text c) then ''boolean'' else ''string''), d,
               lens(name c \<mapsto> max_str_len c)))"
  using assms
  by (simp add: infer_column_def text_not_null text_no_list split: prod.splits bool.splits)

lemma infer_datetime_text:
  assumes "cells col = ss" and "xs = filter (\<lambda>s. s \<noteq> []) (map remove_null ss)" and "xs \<noteq> []"
  shows "infer_datetime P col dfm = infer_datetime_and_format P (col\<lparr>cells := xs\<rparr>) dfm"
  using assms by (simp add: infer_datetime_def)

subsection \<open>The branches of the date format resolver\<close>

lemma text_column_nonempty:
  "xs = filter (\<lambda>s. s \<noteq> []) (map remove_null ss) \<Longrightarrow> xs \<noteq> [] \<Longrightarrow> ss \<noteq> []"
  by auto

lemma resolver_first_format:
  assumes "cells col \<noteq> []" and "filter (\<lambda>s. s \<noteq> []) (cells col) = cells col"
    and "parses P col ''%Y-%m-%d''"
  shows "infer_datetime_and_format P col dfm
           = (True, dfm(name col \<mapsto>
                (if CHR ''/'' \<in> set (series_min (hd (cells col)) (tl (cells col)))
                 then ''YYYY/MM/DD'' else ''YYYY-MM-DD'')))"
proof -
  have "col\<lparr>cells := cells col\<rparr> = col" by simp
  with assms show ?thesis
    by (simp add: infer_datetime_and_format_def Let_def)
qed

lemma resolver_fallback_format:
  assumes "filter (\<lambda>s. s \<noteq> []) (cells col) = cells col"
    and "\<not> parses P col ''%Y-%m-%d''"
    and "(fmt, label) \<in> set fallback_formats"
    and "parses P col fmt"
    and "\<forall>f \<in> set (takeWhile (\<lambda>f. f \<noteq> fmt) (map fst fallback_formats)). \<not> parses P col f"
  shows "infer_datetime_and_format P col dfm = (False, dfm(name col \<mapsto> label))"
proof -
  have id: "col\<lparr>cells := cells col\<rparr> = col" by simp
  from assms(3) consider
      "fmt = ''%m-%d-%Y''" "label = ''MM-DD-YYYY''"
    | "fmt = ''%d-%m-%Y''" "label = ''DD-MM-YYYY''"
    | "fmt = ''%m/%d/%Y''" "label = ''MM/DD/YYYY''"
    | "fmt = ''%d/%m/%Y''" "label = ''DD/MM/YYYY''"
    by (auto simp: fallback_formats_def)
  then show ?thesis
  proof cases
    case 1
    with assms(1,2,4) id show ?thesis
      by (simp add: infer_datetime_and_format_def Let_def)
  next
    case 2
    with assms(5) have "\<not> parses P col ''%m-%d-%Y''" by (simp add: fallback_formats_def)
    with 2 assms(1,2,4) id show ?thesis
      by (simp add: infer_datetime_and_format_def Let_def)
  next
    case 3
    with assms(5) have "\<not> parses P col ''%m-%d-%Y''" "\<not> parses P col ''%d-%m-%Y''"
      by (simp_all add: fallback_formats_def)
    with 3 assms(1,2,4) id show ?thesis
      by (simp add: infer_datetime_and_format_def Let_def)
  next
    case 4
    with assms(5) have "\<not> parses P col ''%m-%d-%Y''" "\<not> parses P col ''%d-%m-%Y''"
        "\<not> parses P col ''%m/%d/%Y''"
      by (simp_all add: fallback_formats_def)
    with 4 assms(1,2,4) id show ?thesis
      by (simp add: infer_datetime_and_format_def Let_def)
  qed
qed

subsection \<open>What can be raised\<close>

text \<open>
  The exceptions of the two parsers are caught where they are raised, and every column has
  its entry in \<open>lengths\<close> when the schema is emitted. The only exception that leaves
  \<open>generate_schema\<close> is the AttributeError of the comma stripping, on a column of
  dtype object in which some cell is not a str.
\<close>

lemma strip_commas_error:
  "strip_commas vs = Inl e \<Longrightarrow> e = AttributeError \<and> vs \<noteq> map Str (strs vs)"
  by (induction vs rule: strip_commas.induct) (auto split: sum.splits)

lemma infer_column_error:
  assumes "infer_column P c dfm lens = Inl e"
  shows "e = AttributeError \<and> dtype_name c = ''object'' \<and> cells c \<noteq> map Str (strs (cells c))"
proof -
  from assms have "infer_number P c = Inl e" and obj: "dtype_name c = ''object''"
    by (auto simp: infer_column_def Let_def split: if_splits sum.splits bool.splits prod.splits)
  then have "strip_commas (cells c) = Inl e"
    by (auto simp: infer_number_def split: sum.splits if_splits)
  from strip_commas_error [OF this] obj show ?thesis by simp
qed

lemma infer_columns_error:
  "infer_columns P df st = Inl e \<Longrightarrow>
     e = AttributeError \<and>
     (\<exists>c \<in> set df. dtype_name c = ''object'' \<and> cells c \<noteq> map Str (strs (cells c)))"
proof (induction df arbitrary: st)
  case Nil
  then show ?case by simp
next
  case (Cons c cs)
  obtain ct dfm lens where st: "st = (ct, dfm, lens)" by (cases st)
  show ?case
  proof (cases "infer_column P c dfm lens")
    case (Inl e')
    with Cons.prems st have "e' = e" by simp
    with infer_column_error [OF Inl] show ?thesis by auto
  next
    case (Inr r)
    obtain t d l where r: "r = (t, d, l)" by (cases r)
    with Inr Cons.prems st
    have "infer_columns P cs (AList.update (name c) t ct, d, l) = Inl e" by simp
    from Cons.IH [OF this] show ?thesis by auto
  qed
qed

lemma infer_columns_lengths:
  "infer_columns P df (ct, dfm, lens) = Inr (ct', dfm', lens') \<Longrightarrow>
     \<forall>k \<in> fst ` set ct. lens k \<noteq> None \<Longrightarrow> \<forall>k \<in> fst ` set ct'. lens' k \<noteq> None"
proof (induction df arbitrary: ct dfm lens)
  case Nil
  then show ?case by simp
next
  case (Cons c cs)
  from Cons.prems(1) obtain t d l where
    step: "infer_column P c dfm lens = Inr (t, d, l)" and
    rest: "infer_columns P cs (AList.update (name c) t ct, d, l) = Inr (ct', dfm', lens')"
    by (auto split: sum.splits)
  from infer_column_cases [OF step] obtain n where l: "l = lens(name c \<mapsto> n)" by auto
  have "\<forall>k \<in> fst ` set (AList.update (name c) t ct). l k \<noteq> None"
    using Cons.prems(2) l by (auto simp: dom_update)
  from Cons.IH [OF rest this] show ?case .
qed

lemma emit_schema_returns:
  "\<forall>k \<in> fst ` set items. lens k \<noteq> None \<Longrightarrow>
     \<exists>schema'. emit_schema items lens flag schema = Inr schema'"
  by (induction items lens flag schema rule: emit_schema.induct) auto

lemma generate_schema_error:
  assumes "generate_schema P df string_max_length = Inl e"
  shows "e = AttributeError \<and>
     (\<exists>c \<in> set df. dtype_name c = ''object'' \<and> cells c \<noteq> map Str (strs (cells c)))"
proof (cases "infer_columns P df ([], Map.empty, Map.empty)")
  case (Inl e')
  with assms have "e' = e" by (simp add: generate_schema_def)
  with infer_columns_error [OF Inl] show ?thesis by simp
next
  case (Inr r)
  obtain ct dfm lens where r: "r = (ct, dfm, lens)" by (cases r)
  with Inr infer_columns_lengths [of P df "[]" Map.empty Map.empty ct dfm lens]
  have "\<forall>k \<in> fst ` set ct. lens k \<noteq> None" by simp
  from emit_schema_returns [OF this, of string_max_length Map.empty] Inr r assms
  show ?thesis by (auto simp: generate_schema_def)
qed

section \<open>Columns without values, with lists, with numbers\<close>

text \<open>
  C7. A column whose cells are all null (None or NaN) is typed \<open>string\<close>, and 0 is
  recorded as its entry of the lengths map; the date format map is left as it was.
\<close>

theorem infer_column_all_null:
  assumes "list_all isnull (cells column)"
  shows "infer_column P column dateFormatMap lengths
           = Inr (Some ''string'', dateFormatMap, lengths(name column \<mapsto> 0))"
  using assms by (simp add: infer_column_def)

theorem infer_column_all_null_witness:
  "list_all isnull (cells \<lparr>name = ''a'', dtype_name = ''object'', cells = [PyNone, NaN, PyNone]\<rparr>)
   \<and> infer_column pd \<lparr>name = ''a'', dtype_name = ''object'', cells = [PyNone, NaN, PyNone]\<rparr>
        [''d'' \<mapsto> ''YYYY-MM-DD''] [''a'' \<mapsto> 7]
      = Inr (Some ''string'', [''d'' \<mapsto> ''YYYY-MM-DD''], [''a'' \<mapsto> 0])"
  using infer_column_all_null [of "\<lparr>name = ''a'', dtype_name = ''object'', cells = [PyNone, NaN, PyNone]\<rparr>"
      pd "[''d'' \<mapsto> ''YYYY-MM-DD'']" "[''a'' \<mapsto> 7]"]
  by simp

text \<open>
  C8. A column of dtype object (the only dtype under which pandas stores a list) that holds
  a list in some row is typed \<open>list\<close>, whatever its other cells are. When
  \<open>generate_schema\<close> returns, neither the schema nor the date format map has an
  entry for it.
\<close>

theorem list_column_excluded:
  assumes "list_ex is_list (cells c)" and "dtype_name c = ''object''"
  shows "infer_column P c dateFormatMap lengths
           = Inr (Some ''list'', dateFormatMap, lengths(name c \<mapsto> max_str_len c))
       \<and> (c \<in> set df \<and> distinct (map name df)
            \<and> generate_schema P df string_max_length = Inr (schema, date_format_map)
          \<longrightarrow> schema (name c) = None \<and> date_format_map (name c) = None)"
proof -
  from assms(1) have nn: "\<not> list_all isnull (cells c)"
    by (rule list_cell_not_null)
  have col: "\<And>d l. infer_column P c d l = Inr (Some ''list'', d, l(name c \<mapsto> max_str_len c))"
    using assms nn by (simp add: infer_column_def)
  have "schema (name c) = None \<and> date_format_map (name c) = None"
    if "c \<in> set df" "distinct (map name df)"
      "generate_schema P df string_max_length = Inr (schema, date_format_map)"
    using generate_schema_column [OF that(3) that(2) that(1)] col by auto
  with col show ?thesis by blast
qed

theorem list_column_excluded_witness:
  "list_ex is_list (cells \<lparr>name = ''extra'', dtype_name = ''object'', cells = [PyNone, List ''['x', 'y']'', Str ''2022-01-02'']\<rparr>)
   \<and> infer_column pd \<lparr>name = ''extra'', dtype_name = ''object'', cells = [PyNone, List ''['x', 'y']'', Str ''2022-01-02'']\<rparr>
        Map.empty Map.empty
      = Inr (Some ''list'', Map.empty, [''extra'' \<mapsto> 10])
   \<and> generate_schema pd
        [\<lparr>name = ''id'', dtype_name = ''object'', cells = [Str ''1'', Str ''2'', Str ''3'']\<rparr>,
         \<lparr>name = ''extra'', dtype_name = ''object'', cells = [PyNone, List ''['x', 'y']'', Str ''2022-01-02'']\<rparr>]
        True
      = Inr ([''id'' \<mapsto> JDict [(''type'', JList [JStr ''null'', JStr ''number'', JStr ''string'']),
                                 (''maxLength'', JInt 1)]],
             Map.empty)
   \<and> [''id'' \<mapsto> JDict [(''type'', JList [JStr ''null'', JStr ''number'', JStr ''string'']),
                         (''maxLength'', JInt 1)]] ''extra'' = None
   \<and> (Map.empty :: date_format_map) ''extra'' = None"
proof -
  let ?c = "\<lparr>name = ''extra'', dtype_name = ''object'', cells = [PyNone, List ''['x', 'y']'', Str ''2022-01-02'']\<rparr>"
  let ?df = "[\<lparr>name = ''id'', dtype_name = ''object'', cells = [Str ''1'', Str ''2'', Str ''3'']\<rparr>, ?c]"
  let ?schema = "[''id'' \<mapsto> JDict [(''type'', JList [JStr ''null'', JStr ''number'', JStr ''string'']),
                                 (''maxLength'', JInt 1)]]"
  have gen: "generate_schema pd ?df True = Inr (?schema, Map.empty)"
    by (simp add: schema_eval column_eval pd_eval)
  have pre: "list_ex is_list (cells ?c)" "dtype_name ?c = ''object''" by simp_all
  from list_column_excluded [OF pre, of pd Map.empty Map.empty ?df True ?schema Map.empty] gen pre
  show ?thesis by (simp add: max_str_len_def)
qed

text \<open>
  C2 asks for the tag \<open>number\<close> on every column of a numeric dtype. The code
  compares the dtype with \<open>int32\<close>, \<open>int64\<close> and \<open>float32\<close> only:
  a \<open>float64\<close> column, as pandas builds it from the floats 1.5 and 2.25, gets no tag.
\<close>

theorem float64_column_has_no_type:
  "infer_column P \<lparr>name = ''x'', dtype_name = ''float64'', cells = [Num ''1.5'', Num ''2.25'']\<rparr>
       dateFormatMap lengths
     = Inr (None, dateFormatMap, lengths(''x'' \<mapsto> 4))"
  by (simp add: infer_column_def max_str_len_def)

text \<open>
  C10, as the code has it. A column that is not all null and whose dtype is neither
  \<open>object\<close> nor one of \<open>int32\<close>, \<open>int64\<close>, \<open>float32\<close> gets no
  tag (\<open>None\<close>). When \<open>generate_schema\<close> returns, the fragment of that column
  has the type list \<open>['null', None, 'string']\<close>, and the key \<open>maxLength\<close> with
  the recorded length when, and only when, \<open>string_max_length\<close> is set.
\<close>

theorem untyped_column_fragment:
  assumes "\<not> list_all isnull (cells c)"
    and "dtype_name c \<noteq> ''object''"
    and "dtype_name c \<notin> set [''int32'', ''int64'', ''float32'']"
  shows "infer_column P c dateFormatMap lengths
           = Inr (None, dateFormatMap, lengths(name c \<mapsto> max_str_len c))
       \<and> (c \<in> set df \<and> distinct (map name df)
            \<and> generate_schema P df string_max_length = Inr (schema, date_format_map)
          \<longrightarrow> schema (name c)
                = Some (JDict ((''type'', JList [JStr ''null'', JNone, JStr ''string''])
                               # (if string_max_length then [(''maxLength'', JInt (max_str_len c))]
                                  else []))))"
proof -
  have col: "\<And>d l. infer_column P c d l = Inr (None, d, l(name c \<mapsto> max_str_len c))"
    using assms by (simp add: infer_column_def)
  have "schema (name c)
          = Some (JDict ((''type'', JList [JStr ''null'', JNone, JStr ''string''])
                         # (if string_max_length then [(''maxLength'', JInt (max_str_len c))]
                            else [])))"
    if "c \<in> set df" "distinct (map name df)"
      "generate_schema P df string_max_length = Inr (schema, date_format_map)"
    using generate_schema_column [OF that(3) that(2) that(1)] col
    by (auto simp: datatype_schema_def max_length_def)
  with col show ?thesis by blast
qed

theorem untyped_column_fragment_witness:
  "\<not> list_all isnull (cells \<lparr>name = ''price'', dtype_name = ''float64'', cells = [Num ''1.5'', NaN]\<rparr>)
   \<and> infer_column pd \<lparr>name = ''price'', dtype_name = ''float64'', cells = [Num ''1.5'', NaN]\<rparr>
        Map.empty Map.empty
      = Inr (None, Map.empty, [''price'' \<mapsto> 3])
   \<and> generate_schema pd
        [\<lparr>name = ''price'', dtype_name = ''float64'', cells = [Num ''1.5'', NaN]\<rparr>] False
      = Inr ([''price'' \<mapsto> JDict [(''type'', JList [JStr ''null'', JNone, JStr ''string''])]],
             Map.empty)"
proof -
  let ?c = "\<lparr>name = ''price'', dtype_name = ''float64'', cells = [Num ''1.5'', NaN]\<rparr>"
  let ?schema = "[''price'' \<mapsto> JDict [(''type'', JList [JStr ''null'', JNone, JStr ''string''])]]"
  have gen: "generate_schema pd [?c] False = Inr (?schema, Map.empty)"
    by (simp add: schema_eval column_eval)
  have pre: "\<not> list_all isnull (cells ?c)" "dtype_name ?c \<noteq> ''object''"
    "dtype_name ?c \<notin> set [''int32'', ''int64'', ''float32'']" by simp_all
  from untyped_column_fragment [OF pre, of pd Map.empty Map.empty "[?c]" False ?schema Map.empty]
    gen pre
  show ?thesis by (simp add: max_str_len_def)
qed

text \<open>
  C10 as stated gives the fragment as \<open>{'type': ['null', None, 'string']}\<close>. With
  \<open>string_max_length\<close> set, the fragment of a column of Python booleans carries
  \<open>maxLength\<close> as well.
\<close>

theorem untyped_column_fragment_counterexample:
  "generate_schema pd [\<lparr>name = ''flag'', dtype_name = ''bool'', cells = [Bool True, Bool False]\<rparr>] True
     = Inr ([''flag'' \<mapsto> JDict [(''type'', JList [JStr ''null'', JNone, JStr ''string'']),
                                 (''maxLength'', JInt 5)]],
            Map.empty)
   \<and> JDict [(''type'', JList [JStr ''null'', JNone, JStr ''string'']), (''maxLength'', JInt 5)]
       \<noteq> JDict [(''type'', JList [JStr ''null'', JNone, JStr ''string''])]"
  by (simp add: schema_eval column_eval)

section \<open>The date format map\<close>

text \<open>
  C1, as the code has it. When \<open>generate_schema\<close> returns, the entry of a column in
  the date format map is what \<open>infer_column\<close> recorded for that column alone. A column
  typed \<open>date-time\<close> has an entry, \<open>YYYY/MM/DD\<close> or \<open>YYYY-MM-DD\<close>; a
  column typed \<open>boolean\<close> or \<open>string\<close> has no entry or one of the four labels
  \<open>MM-DD-YYYY\<close>, \<open>DD-MM-YYYY\<close>, \<open>MM/DD/YYYY\<close>, \<open>DD/MM/YYYY\<close>; a column
  of any other type (\<open>number\<close>, \<open>list\<close>, none) has no entry.
\<close>

theorem date_format_entries:
  assumes "generate_schema P df string_max_length = Inr (schema, date_format_map)"
    and "distinct (map name df)"
    and "c \<in> set df"
    and "infer_column P c Map.empty Map.empty = Inr (t, dfm, lens)"
  shows "date_format_map (name c) = dfm (name c)
       \<and> (t = Some ''date-time'' \<longrightarrow>
            date_format_map (name c) \<in> set [Some ''YYYY/MM/DD'', Some ''YYYY-MM-DD''])
       \<and> (t \<in> set [Some ''boolean'', Some ''string''] \<longrightarrow>
            date_format_map (name c)
              \<in> set [None, Some ''MM-DD-YYYY'', Some ''DD-MM-YYYY'', Some ''MM/DD/YYYY'',
                      Some ''DD/MM/YYYY''])
       \<and> (t \<notin> set [Some ''date-time'', Some ''boolean'', Some ''string''] \<longrightarrow>
            date_format_map (name c) = None)"
proof -
  from generate_schema_column [OF assms(1) assms(2) assms(3)] assms(4)
  have eq: "date_format_map (name c) = dfm (name c)" by auto
  from infer_column_cases [OF assms(4)] eq show ?thesis by auto
qed

theorem date_format_entries_witness:
  "generate_schema pd
     [\<lparr>name = ''day'', dtype_name = ''object'', cells = [Str ''2022-01-02'', Str ''2022-01-15'']\<rparr>,
      \<lparr>name = ''n'', dtype_name = ''object'', cells = [Str ''1'', Str ''2,000'']\<rparr>]
     False
     = Inr ([''day'' \<mapsto> JDict [(''type'', JList [JStr ''null'', JStr ''string'']),
                                (''format'', JStr ''date-time'')],
             ''n'' \<mapsto> JDict [(''type'', JList [JStr ''null'', JStr ''number'', JStr ''string''])]],
            [''day'' \<mapsto> ''YYYY-MM-DD''])
   \<and> infer_column pd
        \<lparr>name = ''day'', dtype_name = ''object'', cells = [Str ''2022-01-02'', Str ''2022-01-15'']\<rparr>
        Map.empty Map.empty
      = Inr (Some ''date-time'', [''day'' \<mapsto> ''YYYY-MM-DD''], [''day'' \<mapsto> 10])
   \<and> [''day'' \<mapsto> ''YYYY-MM-DD''] ''day'' \<in> set [Some ''YYYY/MM/DD'', Some ''YYYY-MM-DD'']"
proof -
  let ?c = "\<lparr>name = ''day'', dtype_name = ''object'', cells = [Str ''2022-01-02'', Str ''2022-01-15'']\<rparr>"
  let ?df = "[?c, \<lparr>name = ''n'', dtype_name = ''object'', cells = [Str ''1'', Str ''2,000'']\<rparr>]"
  let ?schema = "[''day'' \<mapsto> JDict [(''type'', JList [JStr ''null'', JStr ''string'']),
                                (''format'', JStr ''date-time'')],
             ''n'' \<mapsto> JDict [(''type'', JList [JStr ''null'', JStr ''number'', JStr ''string''])]]"
  have col: "infer_column pd ?c Map.empty Map.empty
      = Inr (Some ''date-time'', [''day'' \<mapsto> ''YYYY-MM-DD''], [''day'' \<mapsto> 10])"
    by (simp add: column_eval pd_eval)
  have gen: "generate_schema pd ?df False = Inr (?schema, [''day'' \<mapsto> ''YYYY-MM-DD''])"
    by (simp add: schema_eval column_eval pd_eval)
  have dist: "distinct (map name ?df)" and mem: "?c \<in> set ?df" by simp_all
  from date_format_entries [OF gen dist mem col] gen col show ?thesis by simp
qed

text \<open>
  C1 as stated says that only \<open>date-time\<close> columns have an entry. The column with
  the one value \<open>01-15-2022\<close> is typed \<open>string\<close>, and the returned map holds
  \<open>MM-DD-YYYY\<close> for it.
\<close>

theorem date_format_entry_counterexample:
  "infer_column pd \<lparr>name = ''d'', dtype_name = ''object'', cells = [Str ''01-15-2022'']\<rparr>
       Map.empty Map.empty
     = Inr (Some ''string'', [''d'' \<mapsto> ''MM-DD-YYYY''], [''d'' \<mapsto> 10])
   \<and> generate_schema pd [\<lparr>name = ''d'', dtype_name = ''object'', cells = [Str ''01-15-2022'']\<rparr>] False
     = Inr ([''d'' \<mapsto> JDict [(''type'', JList [JStr ''null'', JStr ''string''])]],
            [''d'' \<mapsto> ''MM-DD-YYYY''])"
  by (simp add: schema_eval column_eval pd_eval)

section \<open>Columns of dates and of booleans\<close>

text \<open>
  C5. Let \<open>c\<close> be a column of str cells on which the Numeric Check, which runs
  first, has failed, and let \<open>xs\<close> be its values that are left after the
  \<open><NULL>\<close> markers are removed and the empty strings dropped. If \<open>xs\<close> is not
  empty and parses as a whole under \<open>%Y-%m-%d\<close>, then \<open>infer_column\<close>
  returns \<open>date-time\<close> and records, under the name of the column,
  \<open>YYYY/MM/DD\<close> if the minimum \<open>m\<close> of \<open>xs\<close> contains \<open>/\<close> and
  \<open>YYYY-MM-DD\<close> otherwise. \<open>m\<close> is a value of \<open>xs\<close> that no value of
  \<open>xs\<close> precedes in Python's order on str.
\<close>

theorem year_first_column:
  assumes "dtype_name c = ''object''"
    and "cells c = map Str ss"
    and "xs = filter (\<lambda>s. s \<noteq> []) (map remove_null ss)"
    and "xs \<noteq> []"
    and "infer_number P c = Inr False"
    and "to_datetime P ((as_text c)\<lparr>cells := xs\<rparr>) ''%Y-%m-%d'' = Inr ()"
    and "m = series_min (hd xs) (tl xs)"
  shows "infer_column P c dateFormatMap lengths
           = Inr (Some ''date-time'',
                  dateFormatMap(name c \<mapsto>
                    (if CHR ''/'' \<in> set m then ''YYYY/MM/DD'' else ''YYYY-MM-DD'')),
                  lengths(name c \<mapsto> max_str_len c))
       \<and> m \<in> set xs \<and> (\<forall>x \<in> set xs. \<not> str_lt x m)"
proof -
  let ?col = "(as_text c)\<lparr>cells := xs\<rparr>"
  from assms(3,4) have ss: "ss \<noteq> []" by (rule text_column_nonempty)
  from assms(2) have cs: "cells (as_text c) = ss" by (simp add: as_text_Str)
  have dt: "infer_datetime P (as_text c) dateFormatMap
      = infer_datetime_and_format P ?col dateFormatMap"
    by (rule infer_datetime_text [OF cs assms(3) assms(4)])
  have p: "parses P ?col ''%Y-%m-%d''" using assms(6) by (simp add: parses_def)
  have "infer_datetime_and_format P ?col dateFormatMap
      = (True, dateFormatMap(name c \<mapsto>
           (if CHR ''/'' \<in> set m then ''YYYY/MM/DD'' else ''YYYY-MM-DD'')))"
    using resolver_first_format [of ?col P dateFormatMap] assms(3,4,7) p
    by (simp add: name_as_text)
  with dt have "infer_datetime P (as_text c) dateFormatMap
      = (True, dateFormatMap(name c \<mapsto>
           (if CHR ''/'' \<in> set m then ''YYYY/MM/DD'' else ''YYYY-MM-DD'')))"
    by simp
  with infer_column_text [OF assms(1) assms(2) ss assms(5), of dateFormatMap lengths]
  have col: "infer_column P c dateFormatMap lengths
           = Inr (Some ''date-time'',
                  dateFormatMap(name c \<mapsto>
                    (if CHR ''/'' \<in> set m then ''YYYY/MM/DD'' else ''YYYY-MM-DD'')),
                  lengths(name c \<mapsto> max_str_len c))"
    by simp
  from assms(4) obtain x0 rest where xs: "xs = x0 # rest" by (cases xs) auto
  with series_min_least [of x0 rest] assms(7)
  have "m \<in> set xs" "\<forall>x \<in> set xs. \<not> str_lt x m" by simp_all
  with col show ?thesis by blast
qed

theorem year_first_column_witness:
  "infer_column pd
     \<lparr>name = ''day'', dtype_name = ''object'', cells = [Str ''2022-01-02'', Str ''2022-01-15'']\<rparr>
     Map.empty Map.empty
     = Inr (Some ''date-time'', [''day'' \<mapsto> ''YYYY-MM-DD''], [''day'' \<mapsto> 10])
   \<and> infer_column pd
     \<lparr>name = ''day'', dtype_name = ''object'', cells = [Str ''2022/01/20'', Str ''2022/01/02'']\<rparr>
     Map.empty Map.empty
     = Inr (Some ''date-time'', [''day'' \<mapsto> ''YYYY/MM/DD''], [''day'' \<mapsto> 10])
   \<and> series_min ''2022/01/20'' [''2022/01/02''] = ''2022/01/02''"
proof -
  let ?a = "\<lparr>name = ''day'', dtype_name = ''object'', cells = [Str ''2022-01-02'', Str ''2022-01-15'']\<rparr>"
  let ?b = "\<lparr>name = ''day'', dtype_name = ''object'', cells = [Str ''2022/01/20'', Str ''2022/01/02'']\<rparr>"
  have na: "infer_number pd ?a = Inr False" and nb: "infer_number pd ?b = Inr False"
    by (simp_all add: infer_number_def pd_eval)
  have xa: "[''2022-01-02'', ''2022-01-15'']
      = filter (\<lambda>s. s \<noteq> []) (map remove_null [''2022-01-02'', ''2022-01-15''])"
    and xb: "[''2022/01/20'', ''2022/01/02'']
      = filter (\<lambda>s. s \<noteq> []) (map remove_null [''2022/01/20'', ''2022/01/02''])"
    by (simp_all add: lower_def lower_char_def)
  have pa: "to_datetime pd ((as_text ?a)\<lparr>cells := [''2022-01-02'', ''2022-01-15'']\<rparr>) ''%Y-%m-%d'' = Inr ()"
    and pb: "to_datetime pd ((as_text ?b)\<lparr>cells := [''2022/01/20'', ''2022/01/02'']\<rparr>) ''%Y-%m-%d'' = Inr ()"
    by (simp_all add: as_text_def pd_eval)
  have ma: "series_min ''2022-01-02'' [''2022-01-15''] = ''2022-01-02''"
    and mb: "series_min ''2022/01/20'' [''2022/01/02''] = ''2022/01/02''"
    by simp_all
  from year_first_column [of ?a "[''2022-01-02'', ''2022-01-15'']" _ pd "''2022-01-02''" Map.empty Map.empty,
      OF _ _ xa _ na pa] ma
  have 1: "infer_column pd ?a Map.empty Map.empty
      = Inr (Some ''date-time'', [''day'' \<mapsto> ''YYYY-MM-DD''], [''day'' \<mapsto> 10])"
    by (simp add: max_str_len_def)
  from year_first_column [of ?b "[''2022/01/20'', ''2022/01/02'']" _ pd "''2022/01/02''" Map.empty Map.empty,
      OF _ _ xb _ nb pb] mb
  have 2: "infer_column pd ?b Map.empty Map.empty
      = Inr (Some ''date-time'', [''day'' \<mapsto> ''YYYY/MM/DD''], [''day'' \<mapsto> 10])"
    by (simp add: max_str_len_def)
  from 1 2 mb show ?thesis by simp
qed

text \<open>
  C4. Let \<open>c\<close> and \<open>xs\<close> be as above, \<open>xs\<close> not empty and not parsed
  under \<open>%Y-%m-%d\<close>. If \<open>fmt\<close> is the first of the four formats
  \<open>%m-%d-%Y\<close>, \<open>%d-%m-%Y\<close>, \<open>%m/%d/%Y\<close>, \<open>%d/%m/%Y\<close> under which
  \<open>xs\<close> parses, the resolver records the label of \<open>fmt\<close> under the name of the
  column and returns False; \<open>infer_column\<close> goes on to the Boolean Check and returns
  \<open>boolean\<close> if it passes and \<open>string\<close> otherwise, never \<open>date-time\<close>.
\<close>

theorem fallback_format_column:
  assumes "dtype_name c = ''object''"
    and "cells c = map Str ss"
    and "xs = filter (\<lambda>s. s \<noteq> []) (map remove_null ss)"
    and "xs \<noteq> []"
    and "infer_number P c = Inr False"
    and "col = (as_text c)\<lparr>cells := xs\<rparr>"
    and "\<not> parses P col ''%Y-%m-%d''"
    and "(fmt, label) \<in> set fallback_formats"
    and "parses P col fmt"
    and "\<forall>f \<in> set (takeWhile (\<lambda>f. f \<noteq> fmt) (map fst fallback_formats)). \<not> parses P col f"
  shows "infer_datetime P (as_text c) dateFormatMap = (False, dateFormatMap(name c \<mapsto> label))
       \<and> infer_column P c dateFormatMap lengths
           = Inr (Some (if infer_boolean (as_text c) then ''boolean'' else ''string''),
                  dateFormatMap(name c \<mapsto> label),
                  lengths(name c \<mapsto> max_str_len c))"
proof -
  from assms(3,4) have ss: "ss \<noteq> []" by (rule text_column_nonempty)
  from assms(2) have cs: "cells (as_text c) = ss" by (simp add: as_text_Str)
  have dt: "infer_datetime P (as_text c) dateFormatMap
      = infer_datetime_and_format P col dateFormatMap"
    unfolding assms(6) by (rule infer_datetime_text [OF cs assms(3) assms(4)])
  have idem: "filter (\<lambda>s. s \<noteq> []) (cells col) = cells col"
    using assms(3,6) by simp
  have nm: "name col = name c" using assms(6) by (simp add: name_as_text)
  from resolver_fallback_format [OF idem assms(7) assms(8) assms(9) assms(10), of dateFormatMap] nm dt
  have r: "infer_datetime P (as_text c) dateFormatMap = (False, dateFormatMap(name c \<mapsto> label))"
    by simp
  with infer_column_text [OF assms(1) assms(2) ss assms(5), of dateFormatMap lengths]
  show ?thesis by simp
qed

theorem fallback_format_column_witness:
  "infer_column pd
     \<lparr>name = ''d'', dtype_name = ''object'',
      cells = [Str ''15/01/2022'', Str ''<NULL>'', Str [], Str ''03/02/2022'']\<rparr>
     Map.empty Map.empty
     = Inr (Some ''string'', [''d'' \<mapsto> ''DD/MM/YYYY''], [''d'' \<mapsto> 10])
   \<and> \<not> parses pd \<lparr>name = ''d'', dtype_name = ''object'', cells = [''15/01/2022'', ''03/02/2022'']\<rparr>
         ''%m/%d/%Y''"
proof -
  let ?c = "\<lparr>name = ''d'', dtype_name = ''object'',
      cells = [Str ''15/01/2022'', Str ''<NULL>'', Str [], Str ''03/02/2022'']\<rparr>"
  let ?xs = "[''15/01/2022'', ''03/02/2022'']"
  let ?col = "\<lparr>name = ''d'', dtype_name = ''object'', cells = ?xs\<rparr>"
  have n: "infer_number pd ?c = Inr False"
    by (simp add: infer_number_def pd_eval)
  have x: "?xs = filter (\<lambda>s. s \<noteq> [])
      (map remove_null [''15/01/2022'', ''<NULL>'', [], ''03/02/2022''])"
    by (simp add: lower_def lower_char_def)
  have col: "?col = (as_text ?c)\<lparr>cells := ?xs\<rparr>" by (simp add: as_text_def)
  have p1: "\<not> parses pd ?col ''%Y-%m-%d''" and p2: "\<not> parses pd ?col ''%m-%d-%Y''"
    and p3: "\<not> parses pd ?col ''%d-%m-%Y''" and p4: "\<not> parses pd ?col ''%m/%d/%Y''"
    and p5: "parses pd ?col ''%d/%m/%Y''"
    by (simp_all add: parses_def pd_eval)
  have mem: "(''%d/%m/%Y'', ''DD/MM/YYYY'') \<in> set fallback_formats"
    by (simp add: fallback_formats_def)
  have first: "\<forall>f \<in> set (takeWhile (\<lambda>f. f \<noteq> ''%d/%m/%Y'') (map fst fallback_formats)).
      \<not> parses pd ?col f"
    using p2 p3 p4 by (simp add: fallback_formats_def)
  have b: "\<not> infer_boolean (as_text ?c)"
    by (simp add: infer_boolean_iff as_text_def lower_def lower_char_def)
  from fallback_format_column [of ?c "[''15/01/2022'', ''<NULL>'', [], ''03/02/2022'']" ?xs pd ?col
      "''%d/%m/%Y''" "''DD/MM/YYYY''" Map.empty Map.empty, OF _ _ x _ n col p1 mem p5 first] b p4
  show ?thesis by (simp add: max_str_len_def)
qed

text \<open>
  C6. On a column of str cells, which is what \<open>infer_column\<close> passes to it, the
  Boolean Check passes exactly when some cell is not the empty string and every such cell is
  boolean-like. \<open>is_boolean_value\<close> holds of a str that is \<open>true\<close> or
  \<open>false\<close> up to case, and of the booleans. When the two checks before it fail,
  the column \<open>["true", "FALSE", "True"]\<close> is typed \<open>boolean\<close>, and a column
  of empty strings only is typed \<open>string\<close>.
\<close>

theorem boolean_check:
  "infer_boolean column
     = ((\<exists>s \<in> set (cells column). s \<noteq> [])
        \<and> (\<forall>s \<in> set (cells column). s \<noteq> [] \<longrightarrow> is_boolean_value (Str s)))
   \<and> is_boolean_value (Str s) = (lower s = ''true'' \<or> lower s = ''false'')
   \<and> is_boolean_value (Bool b)
   \<and> (dtype_name c = ''object'' \<and> cells c = [Str ''true'', Str ''FALSE'', Str ''True'']
        \<and> infer_number P c = Inr False \<and> infer_datetime P (as_text c) dateFormatMap = (False, dfm)
      \<longrightarrow> infer_column P c dateFormatMap lengths
            = Inr (Some ''boolean'', dfm, lengths(name c \<mapsto> 5)))
   \<and> (dtype_name c' = ''object'' \<and> cells c' = replicate (Suc n) (Str [])
        \<and> infer_number P c' = Inr False
      \<longrightarrow> infer_column P c' dateFormatMap lengths
            = Inr (Some ''string'', dateFormatMap, lengths(name c' \<mapsto> 0)))"
proof -
  have 1: "infer_column P c dateFormatMap lengths
            = Inr (Some ''boolean'', dfm, lengths(name c \<mapsto> 5))"
    if h: "dtype_name c = ''object''" "cells c = [Str ''true'', Str ''FALSE'', Str ''True'']"
      "infer_number P c = Inr False" "infer_datetime P (as_text c) dateFormatMap = (False, dfm)"
  proof -
    from h(2) have cs: "cells c = map Str [''true'', ''FALSE'', ''True'']" by simp
    have b: "infer_boolean (as_text c)"
      using h(2) by (simp add: infer_boolean_iff as_text_def lower_def lower_char_def)
    have l: "max_str_len c = 5" using h(2) by (simp add: max_str_len_def)
    from infer_column_text [OF h(1) cs _ h(3), of dateFormatMap lengths] h(4) b l
    show ?thesis by simp
  qed
  have 2: "infer_column P c' dateFormatMap lengths
            = Inr (Some ''string'', dateFormatMap, lengths(name c' \<mapsto> 0))"
    if h: "dtype_name c' = ''object''" "cells c' = replicate (Suc n) (Str [])"
      "infer_number P c' = Inr False"
  proof -
    from h(2) have cs: "cells c' = map Str (replicate (Suc n) [])" by simp
    from as_text_Str [OF cs] have tx: "cells (as_text c') = replicate (Suc n) []" by simp
    have b: "\<not> infer_boolean (as_text c')"
      using tx by (simp add: infer_boolean_iff)
    have d: "infer_datetime P (as_text c') dateFormatMap = (False, dateFormatMap)"
      using tx by (simp add: infer_datetime_def)
    have f: "(max (0::int) ^^ k) 0 = 0" for k
      by (induction k) simp_all
    have l: "max_str_len c' = 0" using h(2) by (simp add: max_str_len_def f)
    from infer_column_text [OF h(1) cs _ h(3), of dateFormatMap lengths] d b l
    show ?thesis by simp
  qed
  from 1 2 show ?thesis by (simp add: infer_boolean_iff)
qed

theorem boolean_check_witness:
  "infer_boolean \<lparr>name = ''b'', dtype_name = ''object'', cells = [''true'', [], ''False'']\<rparr>
   \<and> \<not> infer_boolean \<lparr>name = ''b'', dtype_name = ''object'', cells = [''true'', ''yes'']\<rparr>
   \<and> infer_column pd
        \<lparr>name = ''b'', dtype_name = ''object'', cells = [Str ''true'', Str ''FALSE'', Str ''True'']\<rparr>
        Map.empty Map.empty
      = Inr (Some ''boolean'', Map.empty, [''b'' \<mapsto> 5])
   \<and> infer_column pd
        \<lparr>name = ''b'', dtype_name = ''object'', cells = [Str [], Str [], Str []]\<rparr>
        Map.empty Map.empty
      = Inr (Some ''string'', Map.empty, [''b'' \<mapsto> 0])"
proof -
  let ?t = "\<lparr>name = ''b'', dtype_name = ''object'', cells = [Str ''true'', Str ''FALSE'', Str ''True'']\<rparr>"
  let ?e = "\<lparr>name = ''b'', dtype_name = ''object'', cells = [Str [], Str [], Str []]\<rparr>"
  have nt: "infer_number pd ?t = Inr False" and ne: "infer_number pd ?e = Inr False"
    by (simp_all add: infer_number_def dropna_def pd_eval)
  have dt: "infer_datetime pd (as_text ?t) Map.empty = (False, Map.empty)"
    by (simp add: infer_datetime_def infer_datetime_and_format_def parses_def as_text_def
          lower_def lower_char_def pd_eval)
  have r: "cells ?e = replicate (Suc 2) (Str [])" by (simp add: numeral_2_eq_2)
  from boolean_check [where column = "\<lparr>name = ''b'', dtype_name = ''object'', cells = [''true'', [], ''False'']\<rparr>"
      and c = ?t and P = pd and dateFormatMap = Map.empty and dfm = Map.empty
      and lengths = Map.empty and c' = ?e and n = 2]
    nt ne dt r
  have 1: "infer_boolean \<lparr>name = ''b'', dtype_name = ''object'', cells = [''true'', [], ''False'']\<rparr>"
    and 2: "infer_column pd ?t Map.empty Map.empty = Inr (Some ''boolean'', Map.empty, [''b'' \<mapsto> 5])"
    and 3: "infer_column pd ?e Map.empty Map.empty = Inr (Some ''string'', Map.empty, [''b'' \<mapsto> 0])"
    by (simp_all add: lower_def lower_char_def)
  from boolean_check [where column = "\<lparr>name = ''b'', dtype_name = ''object'', cells = [''true'', ''yes'']\<rparr>"]
  have 4: "\<not> infer_boolean \<lparr>name = ''b'', dtype_name = ''object'', cells = [''true'', ''yes'']\<rparr>"
    by (simp add: lower_def lower_char_def)
  from 1 2 3 4 show ?thesis by simp
qed

section \<open>Exceptions\<close>

text \<open>
  C3 asks that \<open>generate_schema\<close> never raises from its checks. A column with a
  str and a missing cell (None) raises AttributeError: \<open>infer_number\<close> strips the
  commas before its \<open>try\<close>, by a method call that None does not have. The
  exceptions of the parsers themselves never leave the function (lemma
  \<open>generate_schema_error\<close>).
\<close>

theorem missing_cell_raises:
  "generate_schema P [\<lparr>name = ''a'', dtype_name = ''object'', cells = [Str ''1'', PyNone]\<rparr>]
       string_max_length
     = Inl AttributeError"
  by (simp add: generate_schema_def infer_column_def infer_number_def max_str_len_def)

section \<open>The schema emitter\<close>

text \<open>
  C9. \<open>datatype_schema('number', 5, True)\<close> is exactly
  \<open>{'type': ['null', 'number', 'string'], 'maxLength': 5}\<close>, and with the flag False the
  result is the same dict without the key \<open>maxLength\<close>.
\<close>

theorem datatype_schema_number:
  "datatype_schema (Some ''number'') 5 True
     = JDict [(''type'', JList [JStr ''null'', JStr ''number'', JStr ''string'']),
              (''maxLength'', JInt 5)]
   \<and> datatype_schema (Some ''number'') 5 False
     = JDict [(''type'', JList [JStr ''null'', JStr ''number'', JStr ''string''])]"
  by (simp add: datatype_schema_def max_length_def)

end
